theory Spec2Isabelle
  imports Complex_Main "HOL-Library.Sublist" "HOL-Library.AList"
begin

section \<open>Python strings\<close>

text \<open>
  A Python \<open>str\<close> is modelled as a \<open>string\<close>: a list of 8-bit characters read as
  the code points 0 to 255 (Latin-1). This is the whole range of an HTTP header value as
  the HTTP client decodes it; command-line arguments with code points beyond 255 are
  outside the model.
\<close>

definition lower_char :: "char \<Rightarrow> char" where
  \<comment> \<open>\<open>str.lower\<close> on one code point below 256: A-Z and the accented capitals
      0xC0-0xDE (the multiplication sign 0xD7 apart) move up by 32.\<close>
  "lower_char c =
     (let n = (of_char c :: nat)
      in if (65 \<le> n \<and> n \<le> 90) \<or> (192 \<le> n \<and> n \<le> 222 \<and> n \<noteq> 215)
         then char_of (n + 32) else c)"

definition lower :: "string \<Rightarrow> string" where
  "lower s = map lower_char s"

definition isspace :: "char \<Rightarrow> bool" where
  \<comment> \<open>\<open>str.isspace\<close> on one code point below 256: TAB, LF, VT, FF, CR, the four
      separators 0x1C-0x1F, the space, NEL (0x85) and the no-break space (0xA0).\<close>
  "isspace c =
     (let n = (of_char c :: nat)
      in (9 \<le> n \<and> n \<le> 13) \<or> (28 \<le> n \<and> n \<le> 32) \<or> n = 133 \<or> n = 160)"

definition strip :: "string \<Rightarrow> string" where
  \<comment> \<open>\<open>s.strip()\<close>: white space removed at both ends.\<close>
  "strip s = rev (dropWhile isspace (rev (dropWhile isspace s)))"

definition split_first :: "char \<Rightarrow> string \<Rightarrow> string list" where
  \<comment> \<open>\<open>s.split(sep, 1)\<close> for a separator of one character: at most one split, at the
      first occurrence.\<close>
  "split_first sep s =
     (if sep \<in> set s
      then [takeWhile (\<lambda>c. c \<noteq> sep) s, tl (dropWhile (\<lambda>c. c \<noteq> sep) s)]
      else [s])"

definition startswith :: "string \<Rightarrow> string list \<Rightarrow> bool" where
  \<comment> \<open>\<open>s.startswith(tuple)\<close>: some member of the tuple is a prefix of \<open>s\<close>.\<close>
  "startswith s ps = list_ex (\<lambda>p. prefix p s) ps"

definition quoted :: "string \<Rightarrow> string" where
  "quoted s = [CHR 0x27] @ s @ [CHR 0x27]"

fun decimal :: "nat \<Rightarrow> string" where
  "decimal n =
     (if n < 10 then [char_of (48 + n)] else decimal (n div 10) @ [char_of (48 + n mod 10)])"

section \<open>Exceptions\<close>

text \<open>
  The exception classes that the program raises, catches or can be handed by its
  libraries. \<open>RequestsJSONDecodeError\<close> is \<open>requests.exceptions.JSONDecodeError\<close>, which
  \<open>Response.json()\<close> raises since requests 2.27: it derives from \<open>InvalidJSONError\<close> (a
  \<open>RequestException\<close>) and from \<open>json.JSONDecodeError\<close>. \<open>JSONDecodeError\<close> is the plain
  \<open>json.JSONDecodeError\<close> that older versions of the library let through.
  \<open>OtherException\<close> stands for any further subclass of \<open>Exception\<close>;
  \<open>KeyboardInterrupt\<close> and \<open>SystemExit\<close> derive from \<open>BaseException\<close> only.
\<close>

datatype exc_class =
    ConnectionError | Timeout | HTTPError | InvalidJSONError | RequestsJSONDecodeError
  | JSONDecodeError | ValueError | TypeError | KeyError | AttributeError
  | UnboundLocalError | OtherException
  | KeyboardInterrupt | SystemExit

datatype exception = Exc (exc_class: exc_class) (exc_str: string)

fun is_RequestException :: "exc_class \<Rightarrow> bool" where
  "is_RequestException ConnectionError = True"
| "is_RequestException Timeout = True"
| "is_RequestException HTTPError = True"
| "is_RequestException InvalidJSONError = True"
| "is_RequestException RequestsJSONDecodeError = True"
| "is_RequestException _ = False"

fun is_JSONDecodeError :: "exc_class \<Rightarrow> bool" where
  "is_JSONDecodeError JSONDecodeError = True"
| "is_JSONDecodeError RequestsJSONDecodeError = True"
| "is_JSONDecodeError _ = False"

fun is_ValueError :: "exc_class \<Rightarrow> bool" where
  "is_ValueError ValueError = True"
| "is_ValueError JSONDecodeError = True"
| "is_ValueError RequestsJSONDecodeError = True"
| "is_ValueError _ = False"

fun is_Exception :: "exc_class \<Rightarrow> bool" where
  "is_Exception KeyboardInterrupt = False"
| "is_Exception SystemExit = False"
| "is_Exception _ = True"

section \<open>The world: log, network traffic, standard output\<close>

datatype level = INFO | WARNING | ERROR

datatype http_method = POST | GET

type_synonym headers = "(string \<times> string) list"

text \<open>
  A Python \<open>dict\<close> with string keys is an association list in insertion order;
  \<open>d[k] = v\<close> is \<open>AList.update k v d\<close>, which replaces the value in place when the key
  is there and appends the pair otherwise, as the dict does.
\<close>

record request =
  req_method :: http_method
  req_url :: string
  req_json :: "(string \<times> string) list option"
  req_params :: "(string \<times> string) list option"
  req_headers :: headers
  req_timeout :: nat

record world =
  logs :: "(level \<times> string) list"
  sent :: "request list"
  stdout :: "string list"

definition logging_info :: "string \<Rightarrow> world \<Rightarrow> world" where
  "logging_info m w = w\<lparr>logs := logs w @ [(INFO, m)]\<rparr>"

definition logging_warning :: "string \<Rightarrow> world \<Rightarrow> world" where
  "logging_warning m w = w\<lparr>logs := logs w @ [(WARNING, m)]\<rparr>"

definition logging_error :: "string \<Rightarrow> world \<Rightarrow> world" where
  "logging_error m w = w\<lparr>logs := logs w @ [(ERROR, m)]\<rparr>"

definition py_print :: "string \<Rightarrow> world \<Rightarrow> world" where
  "py_print m w = w\<lparr>stdout := stdout w @ [m]\<rparr>"

definition world0 :: world where
  "world0 = \<lparr>logs = [], sent = [], stdout = []\<rparr>"

section \<open>parse_headers\<close>

definition unpack2 :: "string list \<Rightarrow> exception + (string \<times> string)" where
  \<comment> \<open>\<open>key, value = xs\<close>: a list of any length but two raises ValueError.\<close>
  "unpack2 xs =
     (case xs of
        [a, b] \<Rightarrow> Inr (a, b)
      | [] \<Rightarrow> Inl (Exc ValueError ''not enough values to unpack (expected 2, got 0)'')
      | [a] \<Rightarrow> Inl (Exc ValueError ''not enough values to unpack (expected 2, got 1)'')
      | _ \<Rightarrow> Inl (Exc ValueError ''too many values to unpack (expected 2)''))"

definition invalid_header_message :: "string \<Rightarrow> string" where
  "invalid_header_message header_str =
     ''Invalid header format: '' @ header_str @ ''.  Expected '' @ quoted ''Key: Value''"

fun parse_headers_loop :: "string list \<Rightarrow> headers \<Rightarrow> world \<Rightarrow> (exception + headers) \<times> world" where
  "parse_headers_loop [] headers w = (Inr headers, w)"
| "parse_headers_loop (header_str # rest) headers w =
     (case unpack2 (split_first CHR '':'' header_str) of
        Inr (key, val) \<Rightarrow>
          parse_headers_loop rest (AList.update (strip key) (strip val) headers) w
      | Inl e \<Rightarrow>
          if is_ValueError (exc_class e)
          then parse_headers_loop rest headers
                 (logging_error (invalid_header_message header_str) w)
          else (Inl e, w))"

definition parse_headers :: "string list \<Rightarrow> world \<Rightarrow> (exception + headers) \<times> world" where
  "parse_headers header_list w = parse_headers_loop header_list [] w"

section \<open>Responses and the network\<close>

text \<open>
  The value that \<open>json.loads\<close> builds from a JSON text: \<open>dict\<close>, \<open>list\<close>, \<open>str\<close>,
  \<open>int\<close>, \<open>float\<close>, \<open>bool\<close> or \<open>None\<close>. A dict is the list of its items, whose keys
  are distinct.
\<close>

datatype json =
    JNull | JBool bool | JInt int | JFloat real | JStr string
  | JArr "json list" | JObj "(string \<times> json) list"

text \<open>
  What the program reads of a \<open>requests.Response\<close>. \<open>resp_headers\<close> holds the items of
  the case-insensitive header dict (no two names equal up to case); \<open>resp_json\<close> is the
  outcome of \<open>response.json()\<close>, the parsed body or the exception the library raises.
\<close>

record response =
  resp_status_code :: int
  resp_reason :: string
  resp_url :: string
  resp_headers :: headers
  resp_text :: string
  resp_json :: "exception + json"

definition headers_get :: "headers \<Rightarrow> string \<Rightarrow> string \<Rightarrow> string" where
  \<comment> \<open>\<open>response.headers.get(key, default)\<close> on the case-insensitive dict.\<close>
  "headers_get hs key dflt =
     (case map_of (map (\<lambda>(k, v). (lower k, v)) hs) (lower key) of
        None \<Rightarrow> dflt
      | Some v \<Rightarrow> v)"

definition raise_for_status :: "response \<Rightarrow> exception + unit" where
  \<comment> \<open>\<open>Response.raise_for_status\<close>: HTTPError for the 4xx and 5xx codes, nothing else.\<close>
  "raise_for_status r =
     (if 400 \<le> resp_status_code r \<and> resp_status_code r < 500 then
        Inl (Exc HTTPError (decimal (nat (resp_status_code r)) @ '' Client Error: ''
                            @ resp_reason r @ '' for url: '' @ resp_url r))
      else if 500 \<le> resp_status_code r \<and> resp_status_code r < 600 then
        Inl (Exc HTTPError (decimal (nat (resp_status_code r)) @ '' Server Error: ''
                            @ resp_reason r @ '' for url: '' @ resp_url r))
      else Inr ())"

text \<open>
  The network answers each request with a response or with the exception that
  \<open>requests.post\<close> or \<open>requests.get\<close> raises. Sending appends the request to the world's
  traffic.
\<close>

type_synonym network = "request \<Rightarrow> exception + response"

definition requests_post ::
  "network \<Rightarrow> string \<Rightarrow> (string \<times> string) list \<Rightarrow> headers \<Rightarrow> nat \<Rightarrow> world
   \<Rightarrow> (exception + response) \<times> world" where
  "requests_post net url payload hs t w =
     (let rq = \<lparr>req_method = POST, req_url = url, req_json = Some payload,
                req_params = None, req_headers = hs, req_timeout = t\<rparr>
      in (net rq, w\<lparr>sent := sent w @ [rq]\<rparr>))"

definition requests_get ::
  "network \<Rightarrow> string \<Rightarrow> (string \<times> string) list \<Rightarrow> headers \<Rightarrow> nat \<Rightarrow> world
   \<Rightarrow> (exception + response) \<times> world" where
  "requests_get net url payload hs t w =
     (let rq = \<lparr>req_method = GET, req_url = url, req_json = None,
                req_params = Some payload, req_headers = hs, req_timeout = t\<rparr>
      in (net rq, w\<lparr>sent := sent w @ [rq]\<rparr>))"

section \<open>check_introspection\<close>

definition INTROSPECTION_QUERY :: string where
  "INTROSPECTION_QUERY = concat (map (\<lambda>l. l @ [CHR 0x0A])
    ['''', ''query IntrospectionQuery {'', ''  __schema {'', ''    queryType { name }'',
     ''    mutationType { name }'', ''    subscriptionType { name }'', ''    types {'',
     ''      ...FullType'', ''    }'', ''    directives {'', ''      name'',
     ''      description'', ''      locations'', ''      args {'', ''        ...InputValue'',
     ''      }'', ''    }'', ''  }'', ''}'', '''', ''fragment FullType on __Type {'',
     ''  kind'', ''  name'', ''  description'', ''  fields(includeDeprecated: true) {'',
     ''    name'', ''    description'', ''    args {'', ''      ...InputValue'', ''    }'',
     ''    type {'', ''      ...TypeRef'', ''    }'', ''    isDeprecated'',
     ''    deprecationReason'', ''  }'', ''  inputFields {'', ''    ...InputValue'', ''  }'',
     ''  interfaces {'', ''    ...TypeRef'', ''  }'',
     ''  enumValues(includeDeprecated: true) {'', ''    name'', ''    description'',
     ''    isDeprecated'', ''    deprecationReason'', ''  }'', ''  possibleTypes {'',
     ''    ...TypeRef'', ''  }'', ''}'', '''', ''fragment InputValue on __InputValue {'',
     ''  name'', ''  description'', ''  type { ...TypeRef }'', ''  defaultValue'', ''}'', '''',
     ''fragment TypeRef on __Type {'', ''  kind'', ''  name'', ''  ofType {'', ''    kind'',
     ''    name'', ''    ofType {'', ''      kind'', ''      name'', ''      ofType {'',
     ''        kind'', ''        name'', ''        ofType {'', ''          kind'',
     ''          name'', ''          ofType {'', ''            kind'', ''            name'',
     ''          }'', ''        }'', ''      }'', ''    }'', ''  }'', ''}''])"

definition is_html :: "response \<Rightarrow> bool" where
  "is_html response =
     (let content_type = lower (headers_get (resp_headers response) ''Content-Type'' [])
      in sublist ''text/html'' content_type)"

fun py_in :: "string \<Rightarrow> json \<Rightarrow> exception + bool" where
  \<comment> \<open>\<open>k in x\<close> for a string \<open>k\<close>: a key of a dict, an element of a list, a substring of
      a string; TypeError on a value that is no container.\<close>
  "py_in k (JObj kvs) = Inr (k \<in> fst ` set kvs)"
| "py_in k (JArr xs) = Inr (JStr k \<in> set xs)"
| "py_in k (JStr s) = Inr (sublist k s)"
| "py_in k JNull = Inl (Exc TypeError ''argument of type NoneType is not iterable'')"
| "py_in k (JBool b) = Inl (Exc TypeError ''argument of type bool is not iterable'')"
| "py_in k (JInt i) = Inl (Exc TypeError ''argument of type int is not iterable'')"
| "py_in k (JFloat f) = Inl (Exc TypeError ''argument of type float is not iterable'')"

fun py_getitem :: "json \<Rightarrow> string \<Rightarrow> exception + json" where
  \<comment> \<open>\<open>x[k]\<close> for a string \<open>k\<close>: the value under the key of a dict (KeyError without
      it), TypeError on every other value.\<close>
  "py_getitem (JObj kvs) k =
     (case map_of kvs k of Some v \<Rightarrow> Inr v | None \<Rightarrow> Inl (Exc KeyError (quoted k)))"
| "py_getitem (JArr xs) k =
     Inl (Exc TypeError ''list indices must be integers or slices, not str'')"
| "py_getitem (JStr s) k = Inl (Exc TypeError ''string indices must be integers, not str'')"
| "py_getitem JNull k = Inl (Exc TypeError ''NoneType object is not subscriptable'')"
| "py_getitem (JBool b) k = Inl (Exc TypeError ''bool object is not subscriptable'')"
| "py_getitem (JInt i) k = Inl (Exc TypeError ''int object is not subscriptable'')"
| "py_getitem (JFloat f) k = Inl (Exc TypeError ''float object is not subscriptable'')"

definition data_has_schema :: "json \<Rightarrow> exception + bool" where
  \<comment> \<open>The condition of line 150, \<open>'data' in data and '__schema' in data['data']\<close>;
      \<open>and\<close> evaluates its right operand only when the left one is true.\<close>
  "data_has_schema data =
     (case py_in ''data'' data of
        Inl e \<Rightarrow> Inl e
      | Inr False \<Rightarrow> Inr False
      | Inr True \<Rightarrow>
          (case py_getitem data ''data'' of
             Inl e \<Rightarrow> Inl e
           | Inr d \<Rightarrow> py_in ''__schema'' d))"

text \<open>
  Lines 133 to 141: the request or the two requests. An exception leaves together with
  the binding of the local variable \<open>response\<close> at that moment (\<open>None\<close> while it is
  unbound), which the handler of line 163 reads.
\<close>

definition send_query ::
  "network \<Rightarrow> string \<Rightarrow> headers \<Rightarrow> bool \<Rightarrow> (string \<times> string) list \<Rightarrow> world
   \<Rightarrow> (exception \<times> response option + response) \<times> world" where
  "send_query net url hs use_post payload w =
     (if use_post then
        (case requests_post net url payload hs 10 w of
           (Inl e, w1) \<Rightarrow> (Inl (e, None), w1)
         | (Inr response, w1) \<Rightarrow> (Inr response, w1))
      else
        (case requests_post net url payload hs 10 w of
           (Inl e, w1) \<Rightarrow> (Inl (e, None), w1)
         | (Inr response, w1) \<Rightarrow>
             if is_html response then
               (case requests_get net url payload hs 10
                       (logging_info
                          ''Received HTML response, attempting GET request with parameters.''
                          w1) of
                  (Inl e, w2) \<Rightarrow> (Inl (e, Some response), w2)
                | (Inr response', w2) \<Rightarrow> (Inr response', w2))
             else (Inr response, w1)))"

text \<open>Lines 144 to 158: the verdict on the final response.\<close>

definition judge_response :: "response \<Rightarrow> world \<Rightarrow> (exception \<times> response option + bool) \<times> world" where
  "judge_response response w =
     (case raise_for_status response of
        Inl e \<Rightarrow> (Inl (e, Some response), w)
      | Inr _ \<Rightarrow>
          (let content_type = lower (headers_get (resp_headers response) ''Content-Type'' [])
           in if sublist ''application/json'' content_type then
                (case resp_json response of
                   Inl e \<Rightarrow> (Inl (e, Some response), w)
                 | Inr data \<Rightarrow>
                     (case data_has_schema data of
                        Inl e \<Rightarrow> (Inl (e, Some response), w)
                      | Inr True \<Rightarrow>
                          (Inr True, logging_info ''GraphQL introspection is enabled.'' w)
                      | Inr False \<Rightarrow>
                          (Inr False,
                           logging_info
                             ''GraphQL introspection is not enabled or schema is restricted.''
                             w)))
              else
                (Inr False,
                 logging_warning
                   (''Unexpected content type: '' @ content_type
                    @ ''.  Expected application/json. Please ensure target endpoint is a graphql endpoint'')
                   w)))"

text \<open>The body of the \<open>try\<close> statement, lines 131 to 158.\<close>

definition check_introspection_try ::
  "network \<Rightarrow> string \<Rightarrow> headers \<Rightarrow> bool \<Rightarrow> world
   \<Rightarrow> (exception \<times> response option + bool) \<times> world" where
  "check_introspection_try net url hs use_post w =
     (let payload = [(''query'', INTROSPECTION_QUERY)]
      in case send_query net url hs use_post payload w of
           (Inl er, w') \<Rightarrow> (Inl er, w')
         | (Inr response, w') \<Rightarrow> judge_response response w')"

text \<open>
  The \<open>except\<close> clauses of lines 160 to 168, tried in the order they are written: the
  first clause whose class the exception is an instance of handles it. An exception that
  no clause matches, or that a handler raises, leaves the function.
\<close>

definition except_clauses ::
  "(exception \<times> response option + bool) \<times> world \<Rightarrow> (exception + bool) \<times> world" where
  "except_clauses tried =
     (case tried of
        (Inr b, w') \<Rightarrow> (Inr b, w')
      | (Inl (e, response), w') \<Rightarrow>
          if is_RequestException (exc_class e) then
            (Inr False, logging_error (''Request failed: '' @ exc_str e) w')
          else if is_JSONDecodeError (exc_class e) then
            (case response of
               None \<Rightarrow>
                 (Inl (Exc UnboundLocalError
                         ''cannot access local variable response where it is not associated with a value''),
                  w')
             | Some r \<Rightarrow>
                 (Inr False,
                  logging_error (''Failed to decode JSON response: '' @ exc_str e
                                 @ ''.  Raw Response: '' @ resp_text r) w'))
          else if is_Exception (exc_class e) then
            (Inr False, logging_error (''An unexpected error occurred: '' @ exc_str e) w')
          else (Inl e, w'))"

definition check_introspection ::
  "network \<Rightarrow> string \<Rightarrow> headers \<Rightarrow> bool \<Rightarrow> world \<Rightarrow> (exception + bool) \<times> world" where
  "check_introspection net url hs use_post w =
     except_clauses (check_introspection_try net url hs use_post w)"

section \<open>main\<close>

text \<open>
  The \<open>argparse.Namespace\<close> that \<open>ArgumentParser.parse_args\<close> returns for the three
  arguments declared in \<open>setup_argparse\<close>. Its attributes are the three destinations.
\<close>

record namespace =
  ns_url :: string
  ns_header :: "string list"
  ns_post :: bool

datatype pyvalue = PyStr string | PyList "string list" | PyBool bool

definition setup_argparse :: "exception + namespace \<Rightarrow> exception + namespace" where
  \<comment> \<open>\<open>setup_argparse\<close> builds the parser and returns \<open>parser.parse_args()\<close>, line 108:
      the namespace, or the SystemExit of a command line that argparse rejects. The
      outcome of that library call is the parameter.\<close>
  "setup_argparse parsed = parsed"

definition namespace_getattr :: "namespace \<Rightarrow> string \<Rightarrow> exception + pyvalue" where
  \<comment> \<open>Attribute lookup on the namespace, for a name that is not one of the members every
      namespace inherits from its class.\<close>
  "namespace_getattr ns name =
     (if name = ''url'' then Inr (PyStr (ns_url ns))
      else if name = ''header'' then Inr (PyList (ns_header ns))
      else if name = ''post'' then Inr (PyBool (ns_post ns))
      else Inl (Exc AttributeError
                  (quoted ''Namespace'' @ '' object has no attribute '' @ quoted name)))"

fun py_call :: "pyvalue \<Rightarrow> exception + namespace" where
  \<comment> \<open>Calling a value with no arguments: none of the three kinds is callable.\<close>
  "py_call (PyStr s) = Inl (Exc TypeError (quoted ''str'' @ '' object is not callable''))"
| "py_call (PyList xs) = Inl (Exc TypeError (quoted ''list'' @ '' object is not callable''))"
| "py_call (PyBool b) = Inl (Exc TypeError (quoted ''bool'' @ '' object is not callable''))"

text \<open>Lines 190 to 209 of \<open>main\<close>, from the parsed arguments on.\<close>

definition main_with_args :: "network \<Rightarrow> namespace \<Rightarrow> world \<Rightarrow> (exception + unit) \<times> world" where
  "main_with_args net args w =
     (let url = ns_url args in
      case parse_headers (ns_header args) w of
        (Inl e, w1) \<Rightarrow> (Inl e, w1)
      | (Inr hs, w1) \<Rightarrow>
          (let use_post = ns_post args in
           if url = [] then
             (Inl (Exc SystemExit ''1''), logging_error ''URL is required.'' w1)
           else
             (let (url', w2) =
                    (if \<not> startswith url [''http://'', ''https://''] then
                       (''https://'' @ url,
                        logging_warning
                          ''URL does not start with http:// or https://.  Assuming https://''
                          w1)
                     else (url, w1));
                  w3 = logging_info (''Checking GraphQL introspection at: '' @ url') w2
              in case check_introspection net url' hs use_post w3 of
                   (Inl e, w4) \<Rightarrow> (Inl e, w4)
                 | (Inr True, w4) \<Rightarrow>
                     (Inr (), py_print ''GraphQL introspection is ENABLED.'' w4)
                 | (Inr False, w4) \<Rightarrow>
                     (Inr (), py_print ''GraphQL introspection is DISABLED or restricted.'' w4))))"

text \<open>
  \<open>main\<close>, lines 187 and 188 first: the value of \<open>setup_argparse()\<close> is bound to
  \<open>parser\<close>, then \<open>parser.parse_args()\<close> looks the attribute \<open>parse_args\<close> up on it and
  calls the result.
\<close>

definition main :: "network \<Rightarrow> exception + namespace \<Rightarrow> world \<Rightarrow> (exception + unit) \<times> world" where
  "main net parsed w =
     (case setup_argparse parsed of
        Inl e \<Rightarrow> (Inl e, w)
      | Inr parser \<Rightarrow>
          (case namespace_getattr parser ''parse_args'' of
             Inl e \<Rightarrow> (Inl e, w)
           | Inr f \<Rightarrow>
               (case py_call f of
                  Inl e \<Rightarrow> (Inl e, w)
                | Inr args \<Rightarrow> main_with_args net args w)))"

section \<open>Notions used to state the properties of parse_headers\<close>

text \<open>
  A header string is well formed when it holds a colon. Its key and its value are the
  text before and after the first colon, both stripped; storing it is the dict assignment
  under that key.
\<close>

definition has_colon :: "string \<Rightarrow> bool" where
  "has_colon header_str = (CHR '':'' \<in> set header_str)"

definition header_key :: "string \<Rightarrow> string" where
  "header_key header_str = strip (takeWhile (\<lambda>c. c \<noteq> CHR '':'') header_str)"

definition header_value :: "string \<Rightarrow> string" where
  "header_value header_str = strip (tl (dropWhile (\<lambda>c. c \<noteq> CHR '':'') header_str))"

definition store_header :: "string \<Rightarrow> headers \<Rightarrow> headers" where
  "store_header header_str hs = AList.update (header_key header_str) (header_value header_str) hs"

definition header_errors :: "string list \<Rightarrow> (level \<times> string) list" where
  "header_errors header_list =
     map (\<lambda>h. (ERROR, invalid_header_message h)) (filter (\<lambda>h. \<not> has_colon h) header_list)"

section \<open>Notions used to state the properties of check_introspection\<close>

text \<open>
  The two requests the prober can send for a URL and a header mapping, and the response
  that line 144 finds in the variable \<open>response\<close>: the final response.
\<close>

definition post_request :: "string \<Rightarrow> headers \<Rightarrow> request" where
  "post_request url hs =
     \<lparr>req_method = POST, req_url = url, req_json = Some [(''query'', INTROSPECTION_QUERY)],
      req_params = None, req_headers = hs, req_timeout = 10\<rparr>"

definition get_request :: "string \<Rightarrow> headers \<Rightarrow> request" where
  "get_request url hs =
     \<lparr>req_method = GET, req_url = url, req_json = None,
      req_params = Some [(''query'', INTROSPECTION_QUERY)], req_headers = hs, req_timeout = 10\<rparr>"

definition final_response ::
  "network \<Rightarrow> string \<Rightarrow> headers \<Rightarrow> bool \<Rightarrow> world \<Rightarrow> exception \<times> response option + response" where
  "final_response net url hs use_post w =
     fst (send_query net url hs use_post [(''query'', INTROSPECTION_QUERY)] w)"

definition content_type_of :: "response \<Rightarrow> string" where
  \<comment> \<open>The Content-Type header as sent, the empty string without one.\<close>
  "content_type_of r = headers_get (resp_headers r) ''Content-Type'' []"

definition http_error_status :: "int \<Rightarrow> bool" where
  "http_error_status s = (400 \<le> s \<and> s < 600)"

text \<open>
  The claim's words: the parsed structure has a top-level field \<open>data\<close> containing a
  nested field \<open>__schema\<close>. A field is a key of a JSON object.
\<close>

fun has_field :: "string \<Rightarrow> json \<Rightarrow> bool" where
  "has_field k (JObj kvs) = (k \<in> fst ` set kvs)"
| "has_field k _ = False"

fun field :: "string \<Rightarrow> json \<Rightarrow> json option" where
  "field k (JObj kvs) = map_of kvs k"
| "field k _ = None"

definition schema_exposed :: "json \<Rightarrow> bool" where
  "schema_exposed j =
     (case field ''data'' j of None \<Rightarrow> False | Some d \<Rightarrow> has_field ''__schema'' d)"

fun is_sequence :: "json \<Rightarrow> bool" where
  \<comment> \<open>A string or an array: the values on which \<open>in\<close> is not a test for a key.\<close>
  "is_sequence (JStr s) = True"
| "is_sequence (JArr xs) = True"
| "is_sequence _ = False"

definition data_is_sequence :: "json \<Rightarrow> bool" where
  "data_is_sequence j =
     (case field ''data'' j of None \<Rightarrow> False | Some d \<Rightarrow> is_sequence d)"

text \<open>
  What line 150 computes on a parsed body: it is true for a nested field, and also for a
  \<open>data\<close> field that is a string with \<open>__schema\<close> as a substring or an array with the
  string \<open>__schema\<close> as an element.
\<close>

definition data_mentions_schema :: "json \<Rightarrow> bool" where
  "data_mentions_schema j =
     (case field ''data'' j of
        None \<Rightarrow> False
      | Some d \<Rightarrow>
          (case d of
             JStr s \<Rightarrow> sublist ''__schema'' s
           | JArr xs \<Rightarrow> JStr ''__schema'' \<in> set xs
           | _ \<Rightarrow> False))"

definition body_verdict :: "json \<Rightarrow> bool" where
  "body_verdict j = (schema_exposed j \<or> data_mentions_schema j)"

text \<open>
  The verdict that the outcome of one request determines by itself: false for an
  exception of the library, for a status code from 400 to 599, for a Content-Type that
  does not contain \<open>application/json\<close> in any letter case and for a body that does not
  parse; otherwise what line 150 computes on the parsed body. Only an exception outside
  the class \<open>Exception\<close> is passed on.
\<close>

definition outcome_verdict :: "exception + response \<Rightarrow> exception + bool" where
  "outcome_verdict out =
     (case out of
        Inl e \<Rightarrow> if is_Exception (exc_class e) then Inr False else Inl e
      | Inr g \<Rightarrow>
          if http_error_status (resp_status_code g) then Inr False
          else if \<not> sublist ''application/json'' (lower (content_type_of g)) then Inr False
          else (case resp_json g of
                  Inl e \<Rightarrow> if is_Exception (exc_class e) then Inr False else Inl e
                | Inr j \<Rightarrow> Inr (body_verdict j)))"

text \<open>Networks and responses for the concrete cases.\<close>

definition const_network :: "exception + response \<Rightarrow> network" where
  \<comment> \<open>The same outcome for every request.\<close>
  "const_network out rq = out"

definition method_network :: "exception + response \<Rightarrow> exception + response \<Rightarrow> network" where
  \<comment> \<open>One outcome for a POST, one for a GET.\<close>
  "method_network on_post on_get rq = (case req_method rq of POST \<Rightarrow> on_post | GET \<Rightarrow> on_get)"

definition json_response :: "int \<Rightarrow> string \<Rightarrow> string \<Rightarrow> exception + json \<Rightarrow> response" where
  \<comment> \<open>A response with a status code, a Content-Type header, a body text and the outcome
      of parsing it.\<close>
  "json_response status ctype body parsed =
     \<lparr>resp_status_code = status, resp_reason = ''reason'', resp_url = ''https://example.com/graphql'',
      resp_headers = [(''Content-Type'', ctype)], resp_text = body, resp_json = parsed\<rparr>"

definition schema_body :: json where
  \<comment> \<open>The parsed body \<open>{"data": {"__schema": {}}}\<close>.\<close>
  "schema_body = JObj [(''data'', JObj [(''__schema'', JObj [])])]"

section \<open>Notions used to state the properties of main\<close>

text \<open>
  The claim's words: a URL that starts with \<open>http://\<close> or \<open>https://\<close> is passed through
  unchanged, any other is prefixed with \<open>https://\<close> once. The two literal verdict
  lines.
\<close>

definition effective_url :: "string \<Rightarrow> string" where
  "effective_url url =
     (if prefix ''http://'' url \<or> prefix ''https://'' url then url else ''https://'' @ url)"

definition verdict_line :: "bool \<Rightarrow> string" where
  "verdict_line b =
     (if b then ''GraphQL introspection is ENABLED.''
      else ''GraphQL introspection is DISABLED or restricted.'')"

section \<open>Properties of parse_headers\<close>

lemma unpack2_split_first:
  "unpack2 (split_first CHR '':'' h) =
     (if has_colon h
      then Inr (takeWhile (\<lambda>c. c \<noteq> CHR '':'') h, tl (dropWhile (\<lambda>c. c \<noteq> CHR '':'') h))
      else Inl (Exc ValueError ''not enough values to unpack (expected 2, got 1)''))"
  by (simp add: unpack2_def split_first_def has_colon_def)

lemma parse_headers_loop_eq:
  "parse_headers_loop xs hs w =
     (Inr (fold store_header (filter has_colon xs) hs),
      w\<lparr>logs := logs w @ header_errors xs\<rparr>)"
proof (induction xs arbitrary: hs w)
  case Nil
  show ?case by (simp add: header_errors_def)
next
  case (Cons h xs)
  show ?case
  proof (cases "has_colon h")
    case True
    then show ?thesis
      by (simp add: unpack2_split_first Cons.IH store_header_def header_key_def
          header_value_def header_errors_def)
  next
    case False
    then show ?thesis
      by (simp add: unpack2_split_first Cons.IH header_errors_def logging_error_def)
  qed
qed

lemma map_of_fold_store_other:
  "\<forall>h\<in>set ys. header_key h \<noteq> k \<Longrightarrow> map_of (fold store_header ys hs) k = map_of hs k"
  by (induction ys arbitrary: hs) (auto simp add: store_header_def update_conv')

lemma distinct_fold_store:
  "distinct (map fst hs) \<Longrightarrow> distinct (map fst (fold store_header ys hs))"
  by (induction ys arbitrary: hs) (simp_all add: store_header_def distinct_update)

lemma keys_fold_store:
  "fst ` set (fold store_header ys hs) = fst ` set hs \<union> header_key ` set ys"
  by (induction ys arbitrary: hs) (auto simp add: store_header_def dom_update)

lemma update_fresh_key: "k \<notin> fst ` set al \<Longrightarrow> AList.update k v al = al @ [(k, v)]"
  by (induction al) auto

lemma fold_store_distinct_keys:
  "distinct (map header_key ys) \<Longrightarrow> set (map header_key ys) \<inter> set (map fst hs) = {}
   \<Longrightarrow> fold store_header ys hs = hs @ map (\<lambda>h. (header_key h, header_value h)) ys"
proof (induction ys arbitrary: hs)
  case Nil
  show ?case by simp
next
  case (Cons y ys)
  have fresh: "header_key y \<notin> fst ` set hs" using Cons.prems by auto
  have step: "store_header y hs = hs @ [(header_key y, header_value y)]"
    using fresh by (simp add: store_header_def update_fresh_key)
  show ?case using Cons.prems by (simp add: step Cons.IH)
qed


lemma filter_key_distinct:
  "distinct (map fst hs) \<Longrightarrow> map_of hs k = Some v \<Longrightarrow> [kv \<leftarrow> hs. fst kv = k] = [(k, v)]"
proof (induction hs)
  case Nil
  then show ?case by simp
next
  case (Cons p hs)
  show ?case
  proof (cases "fst p = k")
    case True
    with Cons.prems have "p = (k, v)" by (cases p) simp
    moreover from True Cons.prems have "k \<notin> fst ` set hs" by auto
    then have "[kv \<leftarrow> hs. fst kv = k] = []" by (auto simp add: filter_empty_conv)
    ultimately show ?thesis by simp
  next
    case False
    with Cons show ?thesis by (cases p) auto
  qed
qed

lemma parse_headers_eq:
  "parse_headers header_list w =
     (Inr (fold store_header (filter has_colon header_list) []),
      w\<lparr>logs := logs w @ header_errors header_list\<rparr>)"
  by (simp add: parse_headers_def parse_headers_loop_eq)

text \<open>
  C8. For every list of header strings \<open>parse_headers\<close> returns normally (it never
  raises). It logs exactly one error per string without a colon, in argument order, and
  nothing else. The mapping it returns is the one built from the well-formed strings
  alone, each split at its first colon and stored under its stripped key with its
  stripped value: the strings without a colon change nothing, the keys of the mapping
  are exactly the keys of the well-formed strings, and when those keys are pairwise
  different every well-formed string is in the mapping, in argument order.
\<close>

theorem parse_headers_drops_malformed_keeps_well_formed:
  "\<exists>hs. parse_headers header_list w = (Inr hs, w\<lparr>logs := logs w @ header_errors header_list\<rparr>)
     \<and> length (header_errors header_list) = length (filter (\<lambda>h. \<not> has_colon h) header_list)
     \<and> hs = fold store_header (filter has_colon header_list) []
     \<and> fst (parse_headers (filter has_colon header_list) w) = Inr hs
     \<and> fst ` set hs = header_key ` {h \<in> set header_list. has_colon h}
     \<and> (distinct (map header_key (filter has_colon header_list)) \<longrightarrow>
           hs = map (\<lambda>h. (header_key h, header_value h)) (filter has_colon header_list))"
proof -
  let ?hs = "fold store_header (filter has_colon header_list) []"
  have total: "parse_headers header_list w = (Inr ?hs, w\<lparr>logs := logs w @ header_errors header_list\<rparr>)"
    by (rule parse_headers_eq)
  have count: "length (header_errors header_list) = length (filter (\<lambda>h. \<not> has_colon h) header_list)"
    by (simp add: header_errors_def)
  have alone: "fst (parse_headers (filter has_colon header_list) w) = Inr ?hs"
    by (simp add: parse_headers_eq)
  have keys: "fst ` set ?hs = header_key ` {h \<in> set header_list. has_colon h}"
    by (simp add: keys_fold_store) 
  have all: "distinct (map header_key (filter has_colon header_list)) \<longrightarrow>
           ?hs = map (\<lambda>h. (header_key h, header_value h)) (filter has_colon header_list)"
    using fold_store_distinct_keys [of "filter has_colon header_list" "[]"] by simp
  from total count alone keys all show ?thesis by blast
qed

theorem parse_headers_drops_malformed_keeps_well_formed_witness:
  "parse_headers
     [''Authorization: Bearer xyz'', ''Authorization Bearer xyz'', '' X-Custom-Header :  value '']
     world0 =
   (Inr [(''Authorization'', ''Bearer xyz''), (''X-Custom-Header'', ''value'')],
    world0\<lparr>logs := [(ERROR, invalid_header_message ''Authorization Bearer xyz'')]\<rparr>)"
proof -
  define l where "l = [''Authorization: Bearer xyz'', ''Authorization Bearer xyz'',
             '' X-Custom-Header :  value '']"
  have wf: "filter has_colon l = [''Authorization: Bearer xyz'', '' X-Custom-Header :  value '']"
    unfolding l_def by code_simp
  have kv: "map (\<lambda>h. (header_key h, header_value h)) (filter has_colon l) =
            [(''Authorization'', ''Bearer xyz''), (''X-Custom-Header'', ''value'')]"
    unfolding wf by code_simp
  have d: "distinct (map header_key (filter has_colon l))"
    unfolding wf by code_simp
  have er: "header_errors l = [(ERROR, invalid_header_message ''Authorization Bearer xyz'')]"
    unfolding l_def by code_simp
  from parse_headers_drops_malformed_keeps_well_formed [of l world0]
  obtain hs where p: "parse_headers l world0 = (Inr hs, world0\<lparr>logs := logs world0 @ header_errors l\<rparr>)"
    and h: "distinct (map header_key (filter has_colon l)) \<longrightarrow>
           hs = map (\<lambda>h. (header_key h, header_value h)) (filter has_colon l)"
    by blast
  from h d have "hs = map (\<lambda>h. (header_key h, header_value h)) (filter has_colon l)" by simp
  with p show ?thesis
    unfolding kv er unfolding l_def by (simp add: world0_def)
qed

text \<open>
  C9. When a well-formed header string is followed by no well-formed string with the
  same stripped key, the mapping holds its stripped value under that key, and holds no
  other entry for the key: the values of earlier strings with the same key are gone.
\<close>

theorem parse_headers_last_value_wins:
  assumes "has_colon h"
    and "\<forall>h'\<in>set later. has_colon h' \<longrightarrow> header_key h' \<noteq> header_key h"
  shows "\<exists>hs w'. parse_headers (earlier @ h # later) w = (Inr hs, w')
          \<and> map_of hs (header_key h) = Some (header_value h)
          \<and> [kv \<leftarrow> hs. fst kv = header_key h] = [(header_key h, header_value h)]"
proof -
  let ?before = "fold store_header (filter has_colon earlier) []"
  let ?hs = "fold store_header (filter has_colon (earlier @ h # later)) []"
  have split: "?hs = fold store_header (filter has_colon later) (store_header h ?before)"
    using assms(1) by simp
  have other: "\<forall>h'\<in>set (filter has_colon later). header_key h' \<noteq> header_key h"
    using assms(2) by simp
  have val: "map_of ?hs (header_key h) = Some (header_value h)"
    unfolding split
    by (simp add: map_of_fold_store_other [OF other] store_header_def update_conv')
  have "distinct (map fst ?hs)"
    by (rule distinct_fold_store) simp
  then have one: "[kv \<leftarrow> ?hs. fst kv = header_key h] = [(header_key h, header_value h)]"
    using val by (rule filter_key_distinct)
  from parse_headers_eq [of "earlier @ h # later" w] val one show ?thesis by blast
qed

theorem parse_headers_last_value_wins_witness:
  "\<exists>hs w'. parse_headers [''A: 1'', ''A : 2'', ''B: 3'', ''no colon''] world0 = (Inr hs, w')
     \<and> map_of hs ''A'' = Some ''2'' \<and> [kv \<leftarrow> hs. fst kv = ''A''] = [(''A'', ''2'')]"
proof -
  have h1: "has_colon ''A : 2''"
    by code_simp
  have h2: "\<forall>h'\<in>set [''B: 3'', ''no colon'']. has_colon h' \<longrightarrow> header_key h' \<noteq> header_key ''A : 2''"
    by code_simp
  have k: "header_key ''A : 2'' = ''A''" and v: "header_value ''A : 2'' = ''2''"
    by code_simp+
  from parse_headers_last_value_wins [OF h1 h2, of "[''A: 1'']" world0]
  show ?thesis unfolding k v by simp
qed

section \<open>Properties of check_introspection\<close>

subsection \<open>The requests, the verdict on a response, the handlers\<close>

lemma lower_text_html: "lower ''text/html'' = ''text/html''"
  by code_simp

lemma lower_application_json: "lower ''application/json'' = ''application/json''"
  by code_simp

lemma sublist_lower: "sublist a s \<Longrightarrow> sublist (lower a) (lower s)"
  unfolding lower_def by (rule map_mono_sublist)

lemma is_html_iff: "is_html r \<longleftrightarrow> sublist ''text/html'' (lower (content_type_of r))"
  by (simp add: is_html_def content_type_of_def)

lemma contains_html_is_html: "sublist ''text/html'' (content_type_of r) \<Longrightarrow> is_html r"
  using sublist_lower [of "''text/html''" "content_type_of r"]
  by (simp add: is_html_iff lower_text_html)

lemma send_query_force_post:
  "send_query net url hs True [(''query'', INTROSPECTION_QUERY)] w =
     ((case net (post_request url hs) of Inl e \<Rightarrow> Inl (e, None) | Inr r \<Rightarrow> Inr r),
      w\<lparr>sent := sent w @ [post_request url hs]\<rparr>)"
  by (simp add: send_query_def requests_post_def post_request_def split: sum.splits)

lemma send_query_no_fallback:
  "net (post_request url hs) = Inr r \<Longrightarrow> \<not> is_html r \<Longrightarrow>
   send_query net url hs use_post [(''query'', INTROSPECTION_QUERY)] w =
     (Inr r, w\<lparr>sent := sent w @ [post_request url hs]\<rparr>)"
  by (simp add: send_query_def requests_post_def post_request_def)

lemma send_query_fallback:
  "net (post_request url hs) = Inr r \<Longrightarrow> is_html r \<Longrightarrow>
   send_query net url hs False [(''query'', INTROSPECTION_QUERY)] w =
     ((case net (get_request url hs) of Inl e \<Rightarrow> Inl (e, Some r) | Inr r' \<Rightarrow> Inr r'),
      w\<lparr>logs := logs w @ [(INFO, ''Received HTML response, attempting GET request with parameters.'')],
        sent := sent w @ [post_request url hs, get_request url hs]\<rparr>)"
  by (simp add: send_query_def requests_post_def requests_get_def post_request_def
      get_request_def logging_info_def split: sum.splits)

lemma check_introspection_unfold:
  "check_introspection net url hs use_post w =
     except_clauses
       (case send_query net url hs use_post [(''query'', INTROSPECTION_QUERY)] w of
          (Inl er, w') \<Rightarrow> (Inl er, w')
        | (Inr response, w') \<Rightarrow> judge_response response w')"
  by (simp add: check_introspection_def check_introspection_try_def)

lemma check_introspection_final:
  assumes "final_response net url hs use_post w = Inr r"
  shows "check_introspection net url hs use_post w =
           except_clauses (judge_response r
              (snd (send_query net url hs use_post [(''query'', INTROSPECTION_QUERY)] w)))"
  using assms unfolding check_introspection_unfold final_response_def
  by (cases "send_query net url hs use_post [(''query'', INTROSPECTION_QUERY)] w") simp

lemma raise_for_status_ok:
  "\<not> http_error_status (resp_status_code r) \<Longrightarrow> raise_for_status r = Inr ()"
  by (auto simp add: raise_for_status_def http_error_status_def)

lemma judge_not_json:
  "\<not> http_error_status (resp_status_code r) \<Longrightarrow>
   \<not> sublist ''application/json'' (lower (content_type_of r)) \<Longrightarrow>
   judge_response r w =
     (Inr False,
      logging_warning (''Unexpected content type: '' @ lower (content_type_of r)
         @ ''.  Expected application/json. Please ensure target endpoint is a graphql endpoint'') w)"
  by (simp add: judge_response_def raise_for_status_ok content_type_of_def)

lemma judge_json_raises:
  "\<not> http_error_status (resp_status_code r) \<Longrightarrow>
   sublist ''application/json'' (lower (content_type_of r)) \<Longrightarrow>
   resp_json r = Inl e \<Longrightarrow>
   judge_response r w = (Inl (e, Some r), w)"
  by (simp add: judge_response_def raise_for_status_ok content_type_of_def)

lemma judge_json_parsed:
  "\<not> http_error_status (resp_status_code r) \<Longrightarrow>
   sublist ''application/json'' (lower (content_type_of r)) \<Longrightarrow>
   resp_json r = Inr j \<Longrightarrow>
   judge_response r w =
     (case data_has_schema j of
        Inl e \<Rightarrow> (Inl (e, Some r), w)
      | Inr True \<Rightarrow> (Inr True, logging_info ''GraphQL introspection is enabled.'' w)
      | Inr False \<Rightarrow>
          (Inr False,
           logging_info ''GraphQL introspection is not enabled or schema is restricted.'' w))"
  by (simp add: judge_response_def raise_for_status_ok content_type_of_def)

lemma data_has_schema_cases:
  "\<not> data_is_sequence j \<Longrightarrow>
   data_has_schema j = Inr (schema_exposed j)
   \<or> (\<exists>m. data_has_schema j = Inl (Exc TypeError m)) \<and> \<not> schema_exposed j"
proof (cases j)
  case (JObj kvs)
  assume ns: "\<not> data_is_sequence j"
  show ?thesis
  proof (cases "map_of kvs ''data''")
    case None
    then have "''data'' \<notin> fst ` set kvs" by (simp add: map_of_eq_None_iff)
    with None JObj show ?thesis by (simp add: data_has_schema_def schema_exposed_def)
  next
    case (Some d)
    then have "''data'' \<in> fst ` set kvs" by (metis map_of_eq_None_iff option.distinct(1))
    with Some JObj ns show ?thesis
      by (cases d) (simp_all add: data_has_schema_def schema_exposed_def data_is_sequence_def)
  qed
qed (auto simp add: data_has_schema_def schema_exposed_def split: bool.splits)

lemma data_has_schema_exception:
  "data_has_schema j = Inl e \<Longrightarrow> exc_class e = TypeError \<or> exc_class e = KeyError"
  by (cases j) (auto simp add: data_has_schema_def split: sum.splits bool.splits option.splits json.splits if_splits elim!: py_in.elims py_getitem.elims)


lemma sent_except_clauses: "sent (snd (except_clauses t)) = sent (snd t)"
  by (cases t)
    (auto simp add: except_clauses_def logging_error_def split: sum.splits option.splits prod.splits)

lemma sent_judge_response: "sent (snd (judge_response r w)) = sent w"
  by (auto simp add: judge_response_def logging_info_def logging_warning_def Let_def
      split: sum.splits bool.splits)

lemma sent_check_introspection:
  "sent (snd (check_introspection net url hs use_post w)) =
   sent (snd (send_query net url hs use_post [(''query'', INTROSPECTION_QUERY)] w))"
  unfolding check_introspection_unfold
  by (cases "send_query net url hs use_post [(''query'', INTROSPECTION_QUERY)] w")
    (auto simp add: sent_except_clauses sent_judge_response split: sum.splits)

lemma fst_except_clauses_bound:
  "fst (except_clauses (Inl (e, Some r), w)) = (if is_Exception (exc_class e) then Inr False else Inl e)"
  by (cases "exc_class e") (simp_all add: except_clauses_def)

lemma fst_except_clauses_value: "fst (except_clauses (Inr b, w)) = Inr b"
  by (simp add: except_clauses_def)

lemma fst_judge_response: "fst (judge_response r w) = fst (judge_response r w')"
  by (auto simp add: judge_response_def Let_def split: sum.splits bool.splits)

lemma fst_except_judge:
  "fst (except_clauses (judge_response r w)) = fst (except_clauses (judge_response r w'))"
proof -
  have bound: "\<And>e ro w. fst (judge_response r w) = Inl (e, ro) \<Longrightarrow> ro = Some r"
    by (auto simp add: judge_response_def Let_def split: sum.splits bool.splits if_splits)
  show ?thesis
  proof (cases "fst (judge_response r w)")
    case (Inl er)
    obtain e ro where er: "er = (e, ro)" by (cases er)
    from Inl er bound have ro: "ro = Some r" by blast
    from Inl er ro have a: "judge_response r w = (Inl (e, Some r), snd (judge_response r w))"
      by (metis prod.collapse)
    from Inl fst_judge_response [of r w w'] er ro
    have b: "judge_response r w' = (Inl (e, Some r), snd (judge_response r w'))"
      by (metis prod.collapse)
    show ?thesis by (subst a, subst b) (simp add: fst_except_clauses_bound)
  next
    case (Inr b)
    then have a: "judge_response r w = (Inr b, snd (judge_response r w))"
      by (metis prod.collapse)
    from Inr fst_judge_response [of r w w']
    have b: "judge_response r w' = (Inr b, snd (judge_response r w'))"
      by (metis prod.collapse)
    show ?thesis by (subst a, subst b) (simp add: fst_except_clauses_value)
  qed
qed

subsection \<open>The verdict by kind of final response\<close>

lemma judge_http_error_message:
  "http_error_status (resp_status_code r) \<Longrightarrow>
   \<exists>m. raise_for_status r = Inl (Exc HTTPError m)
       \<and> judge_response r w = (Inl (Exc HTTPError m, Some r), w)"
  by (auto simp add: judge_response_def raise_for_status_def http_error_status_def)

lemma final_response_const_network:
  "final_response (const_network (Inr r)) url hs True w = Inr r"
  by (simp add: final_response_def send_query_force_post const_network_def)

lemma contains_json_lower:
  "sublist ''application/json'' (content_type_of r) \<Longrightarrow>
   sublist ''application/json'' (lower (content_type_of r))"
  using sublist_lower [of "''application/json''" "content_type_of r"]
  by (simp add: lower_application_json)

lemma verdict_json_parsed:
  assumes "final_response net url hs use_post w = Inr r"
    and "\<not> http_error_status (resp_status_code r)"
    and "sublist ''application/json'' (lower (content_type_of r))"
    and "resp_json r = Inr j"
  shows "fst (check_introspection net url hs use_post w) =
           (case data_has_schema j of
              Inl e \<Rightarrow> (if is_Exception (exc_class e) then Inr False else Inl e)
            | Inr b \<Rightarrow> Inr b)"
  by (simp add: check_introspection_final [OF assms(1)] judge_json_parsed [OF assms(2,3,4)]
      fst_except_clauses_bound fst_except_clauses_value split: sum.splits bool.splits)

lemma verdict_http_error:
  assumes "final_response net url hs use_post w = Inr r"
    and "http_error_status (resp_status_code r)"
  shows "fst (check_introspection net url hs use_post w) = Inr False"
proof -
  let ?w1 = "snd (send_query net url hs use_post [(''query'', INTROSPECTION_QUERY)] w)"
  from judge_http_error_message [OF assms(2)]
  obtain m where j: "judge_response r ?w1 = (Inl (Exc HTTPError m, Some r), ?w1)"
    by blast
  show ?thesis
    by (simp add: check_introspection_final [OF assms(1)] j fst_except_clauses_bound)
qed

lemma verdict_not_json:
  assumes "final_response net url hs use_post w = Inr r"
    and "\<not> sublist ''application/json'' (lower (content_type_of r))"
  shows "fst (check_introspection net url hs use_post w) = Inr False"
proof (cases "http_error_status (resp_status_code r)")
  case True
  with assms(1) show ?thesis by (rule verdict_http_error)
next
  case False
  show ?thesis
    by (simp add: check_introspection_final [OF assms(1)] judge_not_json [OF False assms(2)]
        fst_except_clauses_value)
qed

lemma content_type_absent:
  "lower ''Content-Type'' \<notin> lower ` fst ` set (resp_headers r) \<Longrightarrow> content_type_of r = []"
proof -
  assume a: "lower ''Content-Type'' \<notin> lower ` fst ` set (resp_headers r)"
  have "fst ` set (map (\<lambda>(k, v). (lower k, v)) (resp_headers r)) = lower ` fst ` set (resp_headers r)"
    by force
  with a have "map_of (map (\<lambda>(k, v). (lower k, v)) (resp_headers r)) (lower ''Content-Type'') = None"
    by (simp add: map_of_eq_None_iff)
  then show ?thesis by (simp add: content_type_of_def headers_get_def)
qed

lemma traffic_without_force_post:
  assumes "net (post_request url hs) = Inr r"
  shows "sent (snd (check_introspection net url hs False w)) =
           sent w @ (if is_html r then [post_request url hs, get_request url hs]
                     else [post_request url hs])"
proof (cases "is_html r")
  case True
  with send_query_fallback [of net url hs r w, OF assms True] show ?thesis
    by (simp add: sent_check_introspection)
next
  case False
  with send_query_no_fallback [of net url hs r False w, OF assms False] show ?thesis
    by (simp add: sent_check_introspection)
qed

text \<open>
  The verdict of the prober is the verdict on its final response.
\<close>

lemma data_has_schema_exact:
  "data_has_schema j = Inr (body_verdict j)
   \<or> (\<exists>m. data_has_schema j = Inl (Exc TypeError m)) \<and> \<not> body_verdict j"
proof (cases j)
  case (JObj kvs)
  show ?thesis
  proof (cases "map_of kvs ''data''")
    case None
    then have "''data'' \<notin> fst ` set kvs" by (simp add: map_of_eq_None_iff)
    with None JObj show ?thesis
      by (simp add: data_has_schema_def body_verdict_def schema_exposed_def
          data_mentions_schema_def)
  next
    case (Some d)
    then have "''data'' \<in> fst ` set kvs" by (metis map_of_eq_None_iff option.distinct(1))
    with Some JObj show ?thesis
      by (cases d)
        (simp_all add: data_has_schema_def body_verdict_def schema_exposed_def
          data_mentions_schema_def)
  qed
qed (auto simp add: data_has_schema_def body_verdict_def schema_exposed_def
      data_mentions_schema_def split: bool.splits)

lemma judged_verdict:
  "fst (except_clauses (judge_response g w)) = outcome_verdict (Inr g)"
proof (cases "http_error_status (resp_status_code g)")
  case True
  from judge_http_error_message [OF True, of w]
  obtain m where "judge_response g w = (Inl (Exc HTTPError m, Some g), w)" by blast
  with True show ?thesis by (simp add: fst_except_clauses_bound outcome_verdict_def)
next
  case ok: False
  show ?thesis
  proof (cases "sublist ''application/json'' (lower (content_type_of g))")
    case False
    with ok show ?thesis
      by (simp add: judge_not_json [OF ok False] fst_except_clauses_value outcome_verdict_def)
  next
    case ct: True
    show ?thesis
    proof (cases "resp_json g")
      case (Inl e)
      with ok ct show ?thesis
        by (simp add: judge_json_raises [OF ok ct Inl] fst_except_clauses_bound
            outcome_verdict_def)
    next
      case (Inr j)
      from data_has_schema_exact [of j] show ?thesis
      proof
        assume "data_has_schema j = Inr (body_verdict j)"
        with ok ct Inr show ?thesis
          by (simp add: judge_json_parsed [OF ok ct Inr] fst_except_clauses_value
              outcome_verdict_def split: bool.splits)
      next
        assume "(\<exists>m. data_has_schema j = Inl (Exc TypeError m)) \<and> \<not> body_verdict j"
        with ok ct Inr show ?thesis
          by (auto simp add: judge_json_parsed [OF ok ct Inr] fst_except_clauses_bound
              outcome_verdict_def)
      qed
    qed
  qed
qed

lemma verdict_of_final_response:
  assumes "final_response net url hs use_post w = Inr g"
  shows "fst (check_introspection net url hs use_post w) = outcome_verdict (Inr g)"
  by (simp add: check_introspection_final [OF assms] judged_verdict)

text \<open>
  Where the \<open>data\<close> field is neither a string nor an array, the verdict on a final
  response outside the status codes 400 to 599, with a Content-Type containing
  \<open>application/json\<close> and a body that parses, is the test for the nested field. So the
  body \<open>{"data": {"__schema": {}}}\<close> gives true, the bodies \<open>{"data": null}\<close> and
  \<open>{"errors": [...]}\<close> give false.
\<close>

lemma json_verdict_is_schema_exposed:
  assumes "final_response net url hs use_post w = Inr r"
    and "\<not> (400 \<le> resp_status_code r \<and> resp_status_code r < 600)"
    and "sublist ''application/json'' (content_type_of r)"
    and "resp_json r = Inr j"
    and "\<not> data_is_sequence j"
  shows "fst (check_introspection net url hs use_post w) = Inr (schema_exposed j)"
proof -
  from assms(2) have ok: "\<not> http_error_status (resp_status_code r)"
    by (simp add: http_error_status_def)
  note v = verdict_json_parsed [OF assms(1) ok contains_json_lower [OF assms(3)] assms(4)]
  from data_has_schema_cases [OF assms(5)] show ?thesis
  proof
    assume "data_has_schema j = Inr (schema_exposed j)"
    then show ?thesis by (simp add: v)
  next
    assume "(\<exists>m. data_has_schema j = Inl (Exc TypeError m)) \<and> \<not> schema_exposed j"
    then show ?thesis by (auto simp add: v)
  qed
qed

lemma json_verdict_examples:
  "fst (check_introspection
        (const_network (Inr (json_response 200 ''application/json'' ''{}'' (Inr schema_body))))
        ''https://example.com/graphql'' [] True world0) = Inr True
   \<and> fst (check_introspection
        (const_network (Inr (json_response 200 ''application/json'' ''{}''
                               (Inr (JObj [(''data'', JNull)])))))
        ''https://example.com/graphql'' [] True world0) = Inr False
   \<and> fst (check_introspection
        (const_network (Inr (json_response 200 ''application/json'' ''{}''
                               (Inr (JObj [(''errors'', JArr [JObj [(''message'', JStr ''off'')]])])))))
        ''https://example.com/graphql'' [] True world0) = Inr False"
proof -
  have one: "fst (check_introspection
        (const_network (Inr (json_response 200 ''application/json'' ''{}'' (Inr j))))
        ''https://example.com/graphql'' [] True world0) = Inr (schema_exposed j)"
    if "\<not> data_is_sequence j" for j
  proof -
    define r where "r = json_response 200 ''application/json'' ''{}'' (Inr j)"
    have fin: "final_response (const_network (Inr r)) ''https://example.com/graphql'' [] True world0 = Inr r"
      by (rule final_response_const_network)
    have st: "\<not> (400 \<le> resp_status_code r \<and> resp_status_code r < 600)"
      by (simp add: r_def json_response_def)
    have ct: "sublist ''application/json'' (content_type_of r)"
      unfolding r_def content_type_of_def json_response_def by simp code_simp
    have js: "resp_json r = Inr j" by (simp add: r_def json_response_def)
    from json_verdict_is_schema_exposed [OF fin st ct js that]
    show ?thesis unfolding r_def .
  qed
  have a: "\<not> data_is_sequence schema_body" and a': "schema_exposed schema_body"
    by code_simp+
  have b: "\<not> data_is_sequence (JObj [(''data'', JNull)])"
    and b': "\<not> schema_exposed (JObj [(''data'', JNull)])"
    by code_simp+
  have c: "\<not> data_is_sequence (JObj [(''errors'', JArr [JObj [(''message'', JStr ''off'')]])])"
    and c': "\<not> schema_exposed (JObj [(''errors'', JArr [JObj [(''message'', JStr ''off'')]])])"
    by code_simp+
  from one [OF a] one [OF b] one [OF c] a' b' c' show ?thesis by simp
qed

subsection \<open>Failures inside the prober\<close>

text \<open>
  A \<open>data\<close> field that is an array holding the string \<open>__schema\<close>: line 150 tests for
  an element, and the verdict is true although the parsed structure has no nested field.
\<close>

lemma list_data_holding_schema_yields_true:
  "\<not> schema_exposed (JObj [(''data'', JArr [JStr ''__schema''])])
   \<and> fst (check_introspection
        (const_network (Inr (json_response 200 ''application/json'' ''{}''
           (Inr (JObj [(''data'', JArr [JStr ''__schema''])])))))
        ''https://example.com/graphql'' [] True world0) = Inr True"
proof -
  define r where "r = json_response 200 ''application/json'' ''{}''
                       (Inr (JObj [(''data'', JArr [JStr ''__schema''])]))"
  have no: "\<not> schema_exposed (JObj [(''data'', JArr [JStr ''__schema''])])"
    by code_simp
  have v: "outcome_verdict (Inr r) = Inr True"
    unfolding r_def by code_simp
  have fin: "final_response (const_network (Inr r)) ''https://example.com/graphql'' [] True world0 = Inr r"
    by (rule final_response_const_network)
  from verdict_of_final_response [OF fin] v no show ?thesis
    unfolding r_def by simp
qed

lemma json_failure_verdict:
  assumes "final_response net url hs use_post w = Inr r"
    and "\<not> http_error_status (resp_status_code r)"
    and "sublist ''application/json'' (lower (content_type_of r))"
    and "resp_json r = Inl e"
  shows "check_introspection net url hs use_post w =
           except_clauses (Inl (e, Some r),
             snd (send_query net url hs use_post [(''query'', INTROSPECTION_QUERY)] w))"
  by (simp add: check_introspection_final [OF assms(1)] judge_json_raises [OF assms(2,3,4)])

lemma json_decode_error_logged_with_raw_text:
  assumes "final_response net url hs use_post w = Inr r"
    and "\<not> http_error_status (resp_status_code r)"
    and "sublist ''application/json'' (lower (content_type_of r))"
    and "resp_json r = Inl e"
    and "is_JSONDecodeError (exc_class e)" and "\<not> is_RequestException (exc_class e)"
  shows "\<exists>w' older. check_introspection net url hs use_post w = (Inr False, w')
           \<and> logs w' = older @ [(ERROR, ''Failed to decode JSON response: '' @ exc_str e
                                          @ ''.  Raw Response: '' @ resp_text r)]"
  using assms(5,6)
  by (simp add: json_failure_verdict [OF assms(1-4)] except_clauses_def logging_error_def)

lemma json_failure_yields_false:
  assumes "final_response net url hs use_post w = Inr r"
    and "\<not> http_error_status (resp_status_code r)"
    and "sublist ''application/json'' (lower (content_type_of r))"
    and "resp_json r = Inl e"
    and "is_Exception (exc_class e)"
  shows "fst (check_introspection net url hs use_post w) = Inr False"
  using assms(5)
  by (simp add: json_failure_verdict [OF assms(1-4)] fst_except_clauses_bound)

lemma send_query_raises:
  assumes "fst (send_query net url hs use_post [(''query'', INTROSPECTION_QUERY)] w) = Inl (e, ro)"
  shows "(ro = None \<and> net (post_request url hs) = Inl e)
         \<or> (\<exists>r0. ro = Some r0 \<and> net (get_request url hs) = Inl e)"
  using assms
  by (auto simp add: send_query_def requests_post_def requests_get_def post_request_def
      get_request_def Let_def split: sum.splits if_splits)

lemma judge_response_raises:
  assumes "fst (judge_response r w) = Inl (e, ro)"
  shows "ro = Some r
         \<and> (exc_class e = HTTPError \<or> resp_json r = Inl e
            \<or> exc_class e = TypeError \<or> exc_class e = KeyError)"
proof (cases "http_error_status (resp_status_code r)")
  case True
  from judge_http_error_message [OF True, of w] assms show ?thesis by auto
next
  case ok: False
  show ?thesis
  proof (cases "sublist ''application/json'' (lower (content_type_of r))")
    case False
    from assms show ?thesis unfolding judge_not_json [OF ok False] by simp
  next
    case ct: True
    show ?thesis
    proof (cases "resp_json r")
      case (Inl e')
      from assms show ?thesis unfolding judge_json_raises [OF ok ct Inl] using Inl by simp
    next
      case (Inr j)
      show ?thesis
      proof (cases "data_has_schema j")
        case (Inl e')
        from data_has_schema_exception [OF Inl] assms show ?thesis
          unfolding judge_json_parsed [OF ok ct Inr] using Inl by auto
      next
        case (Inr b)
        from assms show ?thesis
          unfolding judge_json_parsed [OF ok ct \<open>resp_json r = Inr j\<close>] using Inr
          by (cases b) simp_all
      qed
    qed
  qed
qed

text \<open>
  The prober never raises and answers false on every failure, provided the exceptions
  of the two requests and of the JSON parser are what the libraries raise: a
  \<open>RequestException\<close> from the POST, subclasses of \<open>Exception\<close> from the GET and from
  \<open>response.json()\<close>.
\<close>

lemma check_introspection_returns_boolean:
  assumes post: "\<forall>e. net (post_request url hs) = Inl e \<longrightarrow> is_RequestException (exc_class e)"
    and get: "\<forall>e. net (get_request url hs) = Inl e \<longrightarrow> is_Exception (exc_class e)"
    and body: "\<forall>r e. final_response net url hs use_post w = Inr r \<and> resp_json r = Inl e
                 \<longrightarrow> is_Exception (exc_class e)"
  shows "(\<exists>b. fst (check_introspection net url hs use_post w) = Inr b)
         \<and> ((\<forall>r. final_response net url hs use_post w \<noteq> Inr r) \<longrightarrow>
              fst (check_introspection net url hs use_post w) = Inr False)"
proof (cases "send_query net url hs use_post [(''query'', INTROSPECTION_QUERY)] w")
  case (Pair res w1)
  show ?thesis
  proof (cases res)
    case (Inl er)
    obtain e ro where er: "er = (e, ro)" by (cases er)
    from Pair Inl er
    have "fst (send_query net url hs use_post [(''query'', INTROSPECTION_QUERY)] w) = Inl (e, ro)"
      by simp
    from send_query_raises [OF this]
    have "fst (except_clauses (Inl (e, ro), w1)) = Inr False"
    proof
      assume "ro = None \<and> net (post_request url hs) = Inl e"
      with post show ?thesis by (simp add: except_clauses_def)
    next
      assume "\<exists>r0. ro = Some r0 \<and> net (get_request url hs) = Inl e"
      with get show ?thesis by (auto simp add: fst_except_clauses_bound)
    qed
    with Pair Inl er show ?thesis by (auto simp add: check_introspection_unfold)
  next
    case (Inr r)
    with Pair have fin: "final_response net url hs use_post w = Inr r"
      by (simp add: final_response_def)
    have chk: "check_introspection net url hs use_post w = except_clauses (judge_response r w1)"
      using Pair Inr by (simp add: check_introspection_unfold)
    have "\<exists>b. fst (except_clauses (judge_response r w1)) = Inr b"
    proof (cases "judge_response r w1")
      case jp: (Pair jr w2)
      show ?thesis
      proof (cases jr)
        case (Inl er)
        obtain e ro where er: "er = (e, ro)" by (cases er)
        from jp Inl er have "fst (judge_response r w1) = Inl (e, ro)" by simp
        from judge_response_raises [OF this] body fin
        have "ro = Some r" and "is_Exception (exc_class e)" by auto
        with jp Inl er show ?thesis by (auto simp add: fst_except_clauses_bound)
      next
        case (Inr b)
        with jp show ?thesis by (simp add: fst_except_clauses_value)
      qed
    qed
    with chk fin show ?thesis by simp
  qed
qed

subsection \<open>From the parsed arguments to the verdict line\<close>

lemma stdout_except_clauses: "stdout (snd (except_clauses t)) = stdout (snd t)"
  by (cases t)
    (auto simp add: except_clauses_def logging_error_def split: sum.splits option.splits prod.splits)

lemma stdout_judge_response: "stdout (snd (judge_response r w)) = stdout w"
  by (auto simp add: judge_response_def logging_info_def logging_warning_def Let_def
      split: sum.splits bool.splits)

lemma stdout_send_query: "stdout (snd (send_query net url hs use_post payload w)) = stdout w"
  by (auto simp add: send_query_def requests_post_def requests_get_def logging_info_def Let_def
      split: sum.splits)

lemma stdout_check_introspection:
  "stdout (snd (check_introspection net url hs use_post w)) = stdout w"
  unfolding check_introspection_unfold
  by (cases "send_query net url hs use_post [(''query'', INTROSPECTION_QUERY)] w")
    (auto simp add: stdout_except_clauses stdout_judge_response
      dest: arg_cong [where f = "\<lambda>p. stdout (snd p)"] simp add: stdout_send_query split: sum.splits)

text \<open>
  Lines 190 to 209, for a non-empty URL: the prober is called with the effective URL and
  the parsed headers, a warning is logged when the scheme is added, every request goes
  to the effective URL, and a run that ends normally prints exactly one verdict line.
\<close>

lemma main_with_args_calls_prober:
  assumes "ns_url args \<noteq> []"
  shows "\<exists>w3. sent w3 = sent w \<and> stdout w3 = stdout w
          \<and> (\<not> startswith (ns_url args) [''http://'', ''https://''] \<longrightarrow>
               (WARNING, ''URL does not start with http:// or https://.  Assuming https://'')
                 \<in> set (logs w3))
          \<and> main_with_args net args w =
           (case check_introspection net (effective_url (ns_url args))
                   (fold store_header (filter has_colon (ns_header args)) [])
                   (ns_post args) w3 of
              (Inl e, w4) \<Rightarrow> (Inl e, w4)
            | (Inr b, w4) \<Rightarrow> (Inr (), py_print (verdict_line b) w4))"
proof (cases "startswith (ns_url args) [''http://'', ''https://'']")
  case True
  let ?w1 = "w\<lparr>logs := logs w @ header_errors (ns_header args)\<rparr>"
  let ?w3 = "logging_info (''Checking GraphQL introspection at: '' @ ns_url args) ?w1"
  have eu: "effective_url (ns_url args) = ns_url args"
    using True by (simp add: effective_url_def startswith_def)
  have "main_with_args net args w =
           (case check_introspection net (effective_url (ns_url args))
                   (fold store_header (filter has_colon (ns_header args)) [])
                   (ns_post args) ?w3 of
              (Inl e, w4) \<Rightarrow> (Inl e, w4)
            | (Inr b, w4) \<Rightarrow> (Inr (), py_print (verdict_line b) w4))"
    using assms True
    by (simp add: main_with_args_def parse_headers_eq eu verdict_line_def
        split: prod.splits sum.splits bool.splits)
  moreover have "sent ?w3 = sent w" and "stdout ?w3 = stdout w"
    by (simp_all add: logging_info_def)
  ultimately show ?thesis using True by blast
next
  case False
  let ?w1 = "w\<lparr>logs := logs w @ header_errors (ns_header args)\<rparr>"
  let ?w2 = "logging_warning ''URL does not start with http:// or https://.  Assuming https://'' ?w1"
  let ?w3 = "logging_info (''Checking GraphQL introspection at: '' @ ''https://'' @ ns_url args) ?w2"
  have eu: "effective_url (ns_url args) = ''https://'' @ ns_url args"
    using False by (simp add: effective_url_def startswith_def)
  have "main_with_args net args w =
           (case check_introspection net (effective_url (ns_url args))
                   (fold store_header (filter has_colon (ns_header args)) [])
                   (ns_post args) ?w3 of
              (Inl e, w4) \<Rightarrow> (Inl e, w4)
            | (Inr b, w4) \<Rightarrow> (Inr (), py_print (verdict_line b) w4))"
    using assms False
    by (simp add: main_with_args_def parse_headers_eq eu verdict_line_def
        split: prod.splits sum.splits bool.splits)
  moreover have "sent ?w3 = sent w" and "stdout ?w3 = stdout w"
    and "(WARNING, ''URL does not start with http:// or https://.  Assuming https://'')
                 \<in> set (logs ?w3)"
    by (simp_all add: logging_info_def logging_warning_def)
  ultimately show ?thesis by blast
qed

lemma main_with_args_requests_effective_url:
  assumes "ns_url args \<noteq> []"
  shows "\<exists>hs. sent (snd (main_with_args net args w))
               = sent w @ [post_request (effective_url (ns_url args)) hs]
            \<or> sent (snd (main_with_args net args w))
               = sent w @ [post_request (effective_url (ns_url args)) hs,
                           get_request (effective_url (ns_url args)) hs]"
proof -
  let ?hs = "fold store_header (filter has_colon (ns_header args)) []"
  let ?u = "effective_url (ns_url args)"
  from main_with_args_calls_prober [OF assms, of w net]
  obtain w3 where s3: "sent w3 = sent w"
    and m: "main_with_args net args w =
           (case check_introspection net ?u ?hs (ns_post args) w3 of
              (Inl e, w4) \<Rightarrow> (Inl e, w4)
            | (Inr b, w4) \<Rightarrow> (Inr (), py_print (verdict_line b) w4))"
    by blast
  have same: "sent (snd (main_with_args net args w)) =
              sent (snd (check_introspection net ?u ?hs (ns_post args) w3))"
    unfolding m
    by (cases "check_introspection net ?u ?hs (ns_post args) w3")
      (auto simp add: py_print_def split: sum.splits)
  have "sent (snd (send_query net ?u ?hs (ns_post args) [(''query'', INTROSPECTION_QUERY)] w3))
          = sent w3 @ [post_request ?u ?hs]
        \<or> sent (snd (send_query net ?u ?hs (ns_post args) [(''query'', INTROSPECTION_QUERY)] w3))
          = sent w3 @ [post_request ?u ?hs, get_request ?u ?hs]"
    by (auto simp add: send_query_def requests_post_def requests_get_def post_request_def
        get_request_def logging_info_def Let_def split: sum.splits)
  then show ?thesis
    unfolding same sent_check_introspection s3 by blast
qed

lemma main_with_args_prints_one_verdict:
  assumes "ns_url args \<noteq> []"
    and "fst (main_with_args net args w) = Inr ()"
  shows "\<exists>b. stdout (snd (main_with_args net args w)) = stdout w @ [verdict_line b]"
proof -
  let ?hs = "fold store_header (filter has_colon (ns_header args)) []"
  let ?u = "effective_url (ns_url args)"
  from main_with_args_calls_prober [OF assms(1), of w net]
  obtain w3 where s3: "stdout w3 = stdout w"
    and m: "main_with_args net args w =
           (case check_introspection net ?u ?hs (ns_post args) w3 of
              (Inl e, w4) \<Rightarrow> (Inl e, w4)
            | (Inr b, w4) \<Rightarrow> (Inr (), py_print (verdict_line b) w4))"
    by blast
  obtain res w4 where c: "check_introspection net ?u ?hs (ns_post args) w3 = (res, w4)"
    by (cases "check_introspection net ?u ?hs (ns_post args) w3")
  from stdout_check_introspection [of net ?u ?hs "ns_post args" w3] c s3
  have s4: "stdout w4 = stdout w" by simp
  from assms(2) show ?thesis
    unfolding m c by (cases res) (auto simp add: py_print_def s4)
qed

subsection \<open>The traffic\<close>

text \<open>
  C4. With the force-POST flag set, whatever the URL, the headers and the answer of the
  network, the traffic of \<open>check_introspection\<close> is exactly one request, the POST
  carrying the query as JSON payload; no GET is sent.
\<close>

theorem force_post_sends_exactly_one_post:
  "sent (snd (check_introspection net url hs True w)) = sent w @ [post_request url hs]
   \<and> req_method (post_request url hs) = POST
   \<and> GET \<notin> req_method ` set (sent (snd (check_introspection net url hs True world0)))"
proof -
  have a: "sent (snd (check_introspection net url hs True w)) = sent w @ [post_request url hs]" for w
    by (simp add: sent_check_introspection send_query_force_post)
  have b: "req_method (post_request url hs) = POST"
    by (simp add: post_request_def)
  from a [of world0] b
  have c: "GET \<notin> req_method ` set (sent (snd (check_introspection net url hs True world0)))"
    by (simp add: world0_def)
  from a b c show ?thesis by blast
qed

text \<open>
  C3. Without the force-POST flag, when the POST is answered by a response whose
  Content-Type contains \<open>text/html\<close>, the traffic is the POST followed by exactly one
  GET to the same URL, with the query as URL parameters, the same headers and the
  timeout of 10 seconds. The response of the GET replaces that of the POST: the verdict
  is the verdict on the outcome of the GET, by its status code, its Content-Type and its
  body, and so it is the same for any other HTML answer to the POST with the same
  outcome of the GET.
\<close>

theorem html_post_response_is_replaced_by_get:
  assumes "net (post_request url hs) = Inr r"
    and "sublist ''text/html'' (content_type_of r)"
  shows "sent (snd (check_introspection net url hs False w)) =
           sent w @ [post_request url hs,
                     \<lparr>req_method = GET, req_url = url, req_json = None,
                      req_params = Some [(''query'', INTROSPECTION_QUERY)],
                      req_headers = hs, req_timeout = 10\<rparr>]
         \<and> fst (check_introspection net url hs False w)
             = outcome_verdict (net (get_request url hs))
         \<and> (\<forall>net' r' w'.
               net' (post_request url hs) = Inr r' \<and> sublist ''text/html'' (content_type_of r')
               \<and> net' (get_request url hs) = net (get_request url hs)
               \<longrightarrow> fst (check_introspection net' url hs False w')
                   = fst (check_introspection net url hs False w))"
proof -
  have html: "is_html r" using assms(2) by (rule contains_html_is_html)
  have verdict: "fst (check_introspection n url hs False v) = outcome_verdict (n (get_request url hs))"
    if "n (post_request url hs) = Inr q" and "is_html q" for n q v
  proof -
    have eq: "check_introspection n url hs False v =
        except_clauses
          (case (case n (get_request url hs) of Inl e \<Rightarrow> Inl (e, Some q) | Inr r' \<Rightarrow> Inr r',
                 v\<lparr>logs := logs v @ [(INFO, ''Received HTML response, attempting GET request with parameters.'')],
                   sent := sent v @ [post_request url hs, get_request url hs]\<rparr>) of
             (Inl er, w') \<Rightarrow> (Inl er, w')
           | (Inr response, w') \<Rightarrow> judge_response response w')"
      unfolding check_introspection_unfold send_query_fallback [of n url hs q, OF that] ..
    show ?thesis
    proof (cases "n (get_request url hs)")
      case (Inl e)
      then show ?thesis by (simp add: eq fst_except_clauses_bound outcome_verdict_def)
    next
      case (Inr r')
      then show ?thesis by (simp add: eq judged_verdict)
    qed
  qed
  have traffic: "sent (snd (check_introspection net url hs False w)) =
           sent w @ [post_request url hs,
                     \<lparr>req_method = GET, req_url = url, req_json = None,
                      req_params = Some [(''query'', INTROSPECTION_QUERY)],
                      req_headers = hs, req_timeout = 10\<rparr>]"
    by (simp add: sent_check_introspection send_query_fallback [of net url hs r, OF assms(1) html] get_request_def)
  have judged: "fst (check_introspection net url hs False w)
             = outcome_verdict (net (get_request url hs))"
    by (rule verdict [of net r w, OF assms(1) html])
  have only_get: "fst (check_introspection net' url hs False w')
                   = fst (check_introspection net url hs False w)"
    if "net' (post_request url hs) = Inr r'" and "sublist ''text/html'' (content_type_of r')"
      and "net' (get_request url hs) = net (get_request url hs)" for net' r' w'
    using verdict [of net' r' w', OF that(1) contains_html_is_html [OF that(2)]]
      judged that(3) by simp
  from traffic judged only_get show ?thesis by blast
qed

theorem html_post_response_is_replaced_by_get_witness:
  "sent (snd (check_introspection
      (method_network
         (Inr (json_response 200 ''text/html; charset=utf-8'' ''<html></html>''
                 (Inl (Exc RequestsJSONDecodeError ''Expecting value''))))
         (Inr (json_response 200 ''application/json'' ''{}'' (Inr schema_body))))
      ''https://example.com/graphql'' [] False world0)) =
   [post_request ''https://example.com/graphql'' [],
    \<lparr>req_method = GET, req_url = ''https://example.com/graphql'', req_json = None,
     req_params = Some [(''query'', INTROSPECTION_QUERY)],
     req_headers = [], req_timeout = 10\<rparr>]
   \<and> fst (check_introspection
      (method_network
         (Inr (json_response 200 ''text/html; charset=utf-8'' ''<html></html>''
                 (Inl (Exc RequestsJSONDecodeError ''Expecting value''))))
         (Inr (json_response 200 ''application/json'' ''{}'' (Inr schema_body))))
      ''https://example.com/graphql'' [] False world0) = Inr True
   \<and> fst (check_introspection
      (method_network
         (Inr (json_response 200 ''text/html; charset=utf-8'' ''<html></html>''
                 (Inl (Exc RequestsJSONDecodeError ''Expecting value''))))
         (Inr (json_response 200 ''text/plain'' ''{}'' (Inr schema_body))))
      ''https://example.com/graphql'' [] False world0) = Inr False
   \<and> outcome_verdict
        (Inr (json_response 200 ''text/html; charset=utf-8'' ''<html></html>''
                 (Inl (Exc RequestsJSONDecodeError ''Expecting value'')))) = Inr False"
proof -
  define page where "page = json_response 200 ''text/html; charset=utf-8'' ''<html></html>''
                 (Inl (Exc RequestsJSONDecodeError ''Expecting value''))"
  define good where "good = json_response 200 ''application/json'' ''{}'' (Inr schema_body)"
  define plain where "plain = json_response 200 ''text/plain'' ''{}'' (Inr schema_body)"
  have h2: "sublist ''text/html'' (content_type_of page)"
    unfolding page_def by code_simp
  have p: "method_network (Inr page) out (post_request ''https://example.com/graphql'' []) = Inr page"
    for out
    by (simp add: method_network_def post_request_def)
  have g: "method_network (Inr page) out (get_request ''https://example.com/graphql'' []) = out"
    for out
    by (simp add: method_network_def get_request_def)
  have vg: "outcome_verdict (Inr good) = Inr True"
    unfolding good_def by code_simp
  have vp: "outcome_verdict (Inr plain) = Inr False"
    unfolding plain_def by code_simp
  have vh: "outcome_verdict (Inr page) = Inr False"
    unfolding page_def by code_simp
  from html_post_response_is_replaced_by_get
    [of "method_network (Inr page) (Inr good)" "''https://example.com/graphql''" "[]" page world0,
     OF p h2]
  have a: "sent (snd (check_introspection (method_network (Inr page) (Inr good))
                  ''https://example.com/graphql'' [] False world0)) =
           [post_request ''https://example.com/graphql'' [],
            \<lparr>req_method = GET, req_url = ''https://example.com/graphql'', req_json = None,
             req_params = Some [(''query'', INTROSPECTION_QUERY)],
             req_headers = [], req_timeout = 10\<rparr>]"
    and b: "fst (check_introspection (method_network (Inr page) (Inr good))
                  ''https://example.com/graphql'' [] False world0) = Inr True"
    by (simp_all add: world0_def g vg)
  from html_post_response_is_replaced_by_get
    [of "method_network (Inr page) (Inr plain)" "''https://example.com/graphql''" "[]" page world0,
     OF p h2]
  have c: "fst (check_introspection (method_network (Inr page) (Inr plain))
                  ''https://example.com/graphql'' [] False world0) = Inr False"
    by (simp add: g vp)
  from a b c vh show ?thesis unfolding page_def good_def plain_def by simp
qed

subsection \<open>The verdict\<close>

text \<open>
  C5, the claim as stated fails: a final response with the status code 600, which is at
  least 400, a JSON Content-Type and a body exposing the schema gets the verdict true.
  \<open>raise_for_status\<close> raises for the 4xx and 5xx codes only.
\<close>

theorem status_600_counterexample:
  "400 \<le> resp_status_code (json_response 600 ''application/json'' ''{}'' (Inr schema_body))
   \<and> final_response
        (const_network (Inr (json_response 600 ''application/json'' ''{}'' (Inr schema_body))))
        ''https://example.com/graphql'' [] True world0
       = Inr (json_response 600 ''application/json'' ''{}'' (Inr schema_body))
   \<and> fst (check_introspection
        (const_network (Inr (json_response 600 ''application/json'' ''{}'' (Inr schema_body))))
        ''https://example.com/graphql'' [] True world0) = Inr True"
proof -
  define r where "r = json_response 600 ''application/json'' ''{}'' (Inr schema_body)"
  have st: "resp_status_code r = 600" by (simp add: r_def json_response_def)
  have ok: "\<not> http_error_status (resp_status_code r)"
    by (simp add: st http_error_status_def)
  have ct: "sublist ''application/json'' (lower (content_type_of r))"
    unfolding r_def by code_simp
  have js: "resp_json r = Inr schema_body" by (simp add: r_def json_response_def)
  have sc: "data_has_schema schema_body = Inr True" by code_simp
  have fin: "final_response (const_network (Inr r)) ''https://example.com/graphql'' [] True world0 = Inr r"
    by (rule final_response_const_network)
  have "fst (check_introspection (const_network (Inr r)) ''https://example.com/graphql'' [] True world0) = Inr True"
    by (simp add: check_introspection_final [OF fin] judge_json_parsed [OF ok ct js] sc
        fst_except_clauses_value)
  with st fin show ?thesis unfolding r_def by simp
qed

text \<open>
  C5, amended. For every final response whose status code is from 400 to 599,
  \<open>raise_for_status\<close> raises an HTTPError, \<open>check_introspection\<close> returns false with
  no exception escaping, and the last line it logs is the error
  \<open>Request failed:\<close> followed by the message of that HTTPError.
\<close>

theorem http_error_status_yields_false:
  assumes "final_response net url hs use_post w = Inr r"
    and "400 \<le> resp_status_code r" and "resp_status_code r < 600"
  shows "\<exists>m w' older.
           raise_for_status r = Inl (Exc HTTPError m)
         \<and> check_introspection net url hs use_post w = (Inr False, w')
         \<and> logs w' = older @ [(ERROR, ''Request failed: '' @ m)]"
proof -
  let ?w1 = "snd (send_query net url hs use_post [(''query'', INTROSPECTION_QUERY)] w)"
  from assms(2,3) have "http_error_status (resp_status_code r)"
    by (simp add: http_error_status_def)
  then obtain m where m: "raise_for_status r = Inl (Exc HTTPError m)"
    and j: "judge_response r ?w1 = (Inl (Exc HTTPError m, Some r), ?w1)"
    using judge_http_error_message by blast
  have "check_introspection net url hs use_post w =
          (Inr False, logging_error (''Request failed: '' @ m) ?w1)"
    by (simp add: check_introspection_final [OF assms(1)] j except_clauses_def)
  moreover have "logs (logging_error (''Request failed: '' @ m) ?w1) =
                   logs ?w1 @ [(ERROR, ''Request failed: '' @ m)]"
    by (simp add: logging_error_def)
  ultimately show ?thesis using m by blast
qed

theorem http_error_status_yields_false_witness:
  "fst (check_introspection
        (const_network (Inr (json_response 404 ''application/json'' ''{}'' (Inr schema_body))))
        ''https://example.com/graphql'' [] True world0) = Inr False"
proof -
  define r where "r = json_response 404 ''application/json'' ''{}'' (Inr schema_body)"
  have st: "resp_status_code r = 404" by (simp add: r_def json_response_def)
  have lo: "400 \<le> resp_status_code r" and hi: "resp_status_code r < 600"
    by (simp_all add: st)
  have fin: "final_response (const_network (Inr r)) ''https://example.com/graphql'' [] True world0 = Inr r"
    by (rule final_response_const_network)
  from http_error_status_yields_false [OF fin lo hi]
  show ?thesis unfolding r_def by auto
qed

text \<open>
  C10. Both content-type decisions test the lowercased Content-Type header, the empty
  string when the header is absent, for a substring. \<open>is_html\<close> holds exactly when it
  contains \<open>text/html\<close>, and without the force-POST flag the fallback GET is sent
  exactly then. For a final response outside the status codes 400 to 599, the JSON
  branch is taken exactly when it contains \<open>application/json\<close>: then the verdict is
  the one the parsed body gives, otherwise it is false. A final response without a
  Content-Type header gets the verdict false.
\<close>

theorem content_type_tests_ignore_case:
  "(is_html r \<longleftrightarrow> sublist ''text/html'' (lower (content_type_of r)))
   \<and> (lower ''Content-Type'' \<notin> lower ` fst ` set (resp_headers r) \<longrightarrow> content_type_of r = [])
   \<and> (net (post_request url hs) = Inr r \<longrightarrow>
        sent (snd (check_introspection net url hs False w)) =
          sent w @ (if sublist ''text/html'' (lower (content_type_of r))
                    then [post_request url hs, get_request url hs]
                    else [post_request url hs]))
   \<and> (final_response net url hs use_post w = Inr r \<and> \<not> http_error_status (resp_status_code r) \<longrightarrow>
        (if sublist ''application/json'' (lower (content_type_of r))
         then (\<forall>j b. resp_json r = Inr j \<and> data_has_schema j = Inr b \<longrightarrow>
                 fst (check_introspection net url hs use_post w) = Inr b)
         else fst (check_introspection net url hs use_post w) = Inr False))
   \<and> (final_response net url hs use_post w = Inr r
        \<and> lower ''Content-Type'' \<notin> lower ` fst ` set (resp_headers r) \<longrightarrow>
        fst (check_introspection net url hs use_post w) = Inr False)"
proof -
  have c1: "is_html r \<longleftrightarrow> sublist ''text/html'' (lower (content_type_of r))"
    by (rule is_html_iff)
  have c2: "lower ''Content-Type'' \<notin> lower ` fst ` set (resp_headers r) \<longrightarrow> content_type_of r = []"
    using content_type_absent by blast
  have c3: "net (post_request url hs) = Inr r \<longrightarrow>
        sent (snd (check_introspection net url hs False w)) =
          sent w @ (if sublist ''text/html'' (lower (content_type_of r))
                    then [post_request url hs, get_request url hs]
                    else [post_request url hs])"
    using traffic_without_force_post [of net url hs r w] by (simp add: is_html_iff)
  have c4: "final_response net url hs use_post w = Inr r \<and> \<not> http_error_status (resp_status_code r) \<longrightarrow>
        (if sublist ''application/json'' (lower (content_type_of r))
         then (\<forall>j b. resp_json r = Inr j \<and> data_has_schema j = Inr b \<longrightarrow>
                 fst (check_introspection net url hs use_post w) = Inr b)
         else fst (check_introspection net url hs use_post w) = Inr False)"
  proof (intro impI, elim conjE)
    assume fin: "final_response net url hs use_post w = Inr r"
      and ok: "\<not> http_error_status (resp_status_code r)"
    show "if sublist ''application/json'' (lower (content_type_of r))
         then (\<forall>j b. resp_json r = Inr j \<and> data_has_schema j = Inr b \<longrightarrow>
                 fst (check_introspection net url hs use_post w) = Inr b)
         else fst (check_introspection net url hs use_post w) = Inr False"
    proof (cases "sublist ''application/json'' (lower (content_type_of r))")
      case True
      have "fst (check_introspection net url hs use_post w) = Inr b"
        if "resp_json r = Inr j" and "data_has_schema j = Inr b" for j b
        using verdict_json_parsed [OF fin ok True that(1)] that(2) by simp
      with True show ?thesis by simp
    next
      case False
      with verdict_not_json [OF fin False] show ?thesis by simp
    qed
  qed
  have c5: "final_response net url hs use_post w = Inr r
        \<and> lower ''Content-Type'' \<notin> lower ` fst ` set (resp_headers r) \<longrightarrow>
        fst (check_introspection net url hs use_post w) = Inr False"
  proof (intro impI, elim conjE)
    assume fin: "final_response net url hs use_post w = Inr r"
      and no: "lower ''Content-Type'' \<notin> lower ` fst ` set (resp_headers r)"
    from content_type_absent [OF no]
    have "\<not> sublist ''application/json'' (lower (content_type_of r))"
      by (simp add: lower_def)
    with fin show "fst (check_introspection net url hs use_post w) = Inr False"
      by (rule verdict_not_json)
  qed
  from c1 c2 c3 c4 c5 show ?thesis by (intro conjI)
qed

theorem content_type_tests_ignore_case_witness:
  "fst (check_introspection
        (const_network
           (Inr (json_response 200 ''Application/JSON; charset=utf-8'' ''{}'' (Inr schema_body))))
        ''https://example.com/graphql'' [] True world0) = Inr True
   \<and> fst (check_introspection
        (const_network
           (Inr \<lparr>resp_status_code = 200, resp_reason = ''OK'',
                 resp_url = ''https://example.com/graphql'', resp_headers = [],
                 resp_text = ''{}'', resp_json = Inr schema_body\<rparr>))
        ''https://example.com/graphql'' [] True world0) = Inr False"
proof -
  define r where "r = json_response 200 ''Application/JSON; charset=utf-8'' ''{}'' (Inr schema_body)"
  define q where "q = \<lparr>resp_status_code = 200, resp_reason = ''OK'',
                 resp_url = ''https://example.com/graphql'', resp_headers = [],
                 resp_text = ''{}'', resp_json = Inr schema_body\<rparr>"
  have fin: "final_response (const_network (Inr r)) ''https://example.com/graphql'' [] True world0 = Inr r"
    by (rule final_response_const_network)
  have ok: "\<not> http_error_status (resp_status_code r)"
    by (simp add: r_def json_response_def http_error_status_def)
  have ct: "sublist ''application/json'' (lower (content_type_of r))"
    unfolding r_def by code_simp
  have js: "resp_json r = Inr schema_body" by (simp add: r_def json_response_def)
  have sc: "data_has_schema schema_body = Inr True" by code_simp
  from content_type_tests_ignore_case
         [of r "const_network (Inr r)" "''https://example.com/graphql''" "[]" world0 True]
       fin ok ct js sc
  have a: "fst (check_introspection (const_network (Inr r)) ''https://example.com/graphql'' []
             True world0) = Inr True"
    by auto
  have finq: "final_response (const_network (Inr q)) ''https://example.com/graphql'' [] True world0 = Inr q"
    by (rule final_response_const_network)
  have no: "lower ''Content-Type'' \<notin> lower ` fst ` set (resp_headers q)"
    by (simp add: q_def)
  from content_type_tests_ignore_case
         [of q "const_network (Inr q)" "''https://example.com/graphql''" "[]" world0 True]
       finq no
  have b: "fst (check_introspection (const_network (Inr q)) ''https://example.com/graphql'' []
             True world0) = Inr False"
    by simp
  from a b show ?thesis unfolding r_def q_def by simp
qed

section \<open>Where the program departs from the claims\<close>

text \<open>
  C1. A response with the status code 200 and a Content-Type containing
  \<open>application/json\<close>, whose body parses to
  \<open>{"data": "introspection of __schema is disabled"}\<close>: the parsed structure has a
  top-level field \<open>data\<close>, a string, with no nested field \<open>__schema\<close>, and yet
  \<open>check_introspection\<close> returns true. On a string the \<open>in\<close> of line 150 tests for a
  substring.
\<close>

theorem string_data_mentioning_schema_yields_true:
  "resp_status_code (json_response 200 ''application/json'' ''{}''
        (Inr (JObj [(''data'', JStr ''introspection of __schema is disabled'')]))) = 200
   \<and> sublist ''application/json''
        (content_type_of (json_response 200 ''application/json'' ''{}''
           (Inr (JObj [(''data'', JStr ''introspection of __schema is disabled'')]))))
   \<and> \<not> schema_exposed (JObj [(''data'', JStr ''introspection of __schema is disabled'')])
   \<and> fst (check_introspection
        (const_network (Inr (json_response 200 ''application/json'' ''{}''
           (Inr (JObj [(''data'', JStr ''introspection of __schema is disabled'')])))))
        ''https://example.com/graphql'' [] True world0) = Inr True"
proof -
  define r where "r = json_response 200 ''application/json'' ''{}''
                       (Inr (JObj [(''data'', JStr ''introspection of __schema is disabled'')]))"
  have st: "resp_status_code r = 200" by (simp add: r_def json_response_def)
  have ct: "sublist ''application/json'' (content_type_of r)"
    unfolding r_def by code_simp
  have no: "\<not> schema_exposed (JObj [(''data'', JStr ''introspection of __schema is disabled'')])"
    by code_simp
  have v: "outcome_verdict (Inr r) = Inr True"
    unfolding r_def by code_simp
  have fin: "final_response (const_network (Inr r)) ''https://example.com/graphql'' [] True world0 = Inr r"
    by (rule final_response_const_network)
  from verdict_of_final_response [OF fin] v st ct no show ?thesis
    unfolding r_def by simp
qed

text \<open>
  C6. With requests 2.27 or later the exception of \<open>response.json()\<close> is a
  \<open>requests.exceptions.JSONDecodeError\<close>, an instance of \<open>RequestException\<close> as well as
  of \<open>json.JSONDecodeError\<close>. For a response with a JSON Content-Type and the body
  \<open>not json\<close> the clause of line 160 comes first and handles it: the verdict is false,
  but the only line logged is \<open>Request failed: ...\<close>, without the raw response text;
  the clause of line 163 is not reached.
\<close>

theorem requests_json_error_is_logged_as_request_failure:
  "check_introspection
     (const_network
        (Inr (json_response 200 ''application/json'' ''not json''
                (Inl (Exc RequestsJSONDecodeError ''Expecting value: line 1 column 1 (char 0)'')))))
     ''https://example.com/graphql'' [] True world0
   = (Inr False,
      \<lparr>logs = [(ERROR, ''Request failed: Expecting value: line 1 column 1 (char 0)'')],
       sent = [post_request ''https://example.com/graphql'' []],
       stdout = []\<rparr>)"
proof -
  define r where "r = json_response 200 ''application/json'' ''not json''
                (Inl (Exc RequestsJSONDecodeError ''Expecting value: line 1 column 1 (char 0)''))"
  have fin: "final_response (const_network (Inr r)) ''https://example.com/graphql'' [] True world0 = Inr r"
    by (rule final_response_const_network)
  have ok: "\<not> http_error_status (resp_status_code r)"
    by (simp add: r_def json_response_def http_error_status_def)
  have ct: "sublist ''application/json'' (lower (content_type_of r))"
    unfolding r_def by code_simp
  have js: "resp_json r = Inl (Exc RequestsJSONDecodeError ''Expecting value: line 1 column 1 (char 0)'')"
    by (simp add: r_def json_response_def)
  show ?thesis
    unfolding r_def [symmetric] json_failure_verdict [OF fin ok ct js] send_query_force_post
    by (simp add: except_clauses_def logging_error_def world0_def)
qed

text \<open>
  C2. For every parsed command line \<open>main\<close> raises AttributeError at line 188, before
  anything else happens: \<open>setup_argparse\<close> already returns the parsed namespace, which
  has no attribute \<open>parse_args\<close>. Nothing is printed, whatever the URL.
\<close>

theorem main_raises_attribute_error:
  "main net (Inr args) w =
     (Inl (Exc AttributeError
             (quoted ''Namespace'' @ '' object has no attribute '' @ quoted ''parse_args'')), w)
   \<and> stdout (snd (main net (Inr args) w)) = stdout w"
  by (simp add: main_def setup_argparse_def namespace_getattr_def)

text \<open>
  C7. For the argument \<open>example.com/graphql\<close>, which lacks a scheme, and a server that
  would answer the introspection query, \<open>main\<close> ends in the AttributeError of line 188
  and sends no request: no URL, prefixed or not, reaches the prober.
\<close>

theorem main_never_reaches_the_prober:
  "fst (main (const_network (Inr (json_response 200 ''application/json'' ''{}'' (Inr schema_body))))
          (Inr \<lparr>ns_url = ''example.com/graphql'', ns_header = [], ns_post = False\<rparr>) world0)
     = Inl (Exc AttributeError
              (quoted ''Namespace'' @ '' object has no attribute '' @ quoted ''parse_args''))
   \<and> sent (snd (main (const_network
                          (Inr (json_response 200 ''application/json'' ''{}'' (Inr schema_body))))
                  (Inr \<lparr>ns_url = ''example.com/graphql'', ns_header = [], ns_post = False\<rparr>)
                  world0)) = []"
  by (simp add: main_def setup_argparse_def namespace_getattr_def world0_def)

end
